theory Spec2Isabelle
  imports Main "HOL-Library.Code_Target_Nat"
begin

section \<open>Strings\<close>

text \<open>
  A JavaScript string is a sequence of UTF-16 code units. The chrome phrases of
  \<^verbatim>\<open>cleanText\<close> contain U+2022 and U+2026, which do not fit an 8-bit \<^typ>\<open>char\<close>,
  so a string is modelled as the list of its code units; \<open>ascii\<close> embeds an ASCII literal.
\<close>

type_synonym jsstring = "nat list"

definition ascii :: "string \<Rightarrow> jsstring" where
  "ascii s = map of_char s"

text \<open>
  The character classes of the regular expressions in the source: \<^verbatim>\<open>\s\<close> (the same set
  that \<^verbatim>\<open>String.prototype.trim\<close> strips), \<^verbatim>\<open>\d\<close> and \<^verbatim>\<open>\w\<close>.
\<close>

definition is_space :: "nat \<Rightarrow> bool" where
  "is_space c = (c \<in> set [9, 10, 11, 12, 13, 32, 160, 5760, 8232, 8233, 8239, 8287, 12288, 65279]
                 \<or> (8192 \<le> c \<and> c \<le> 8202))"

definition is_digit :: "nat \<Rightarrow> bool" where
  "is_digit c = (48 \<le> c \<and> c \<le> 57)"

definition is_word :: "nat \<Rightarrow> bool" where
  "is_word c = ((97 \<le> c \<and> c \<le> 122) \<or> (65 \<le> c \<and> c \<le> 90) \<or> is_digit c \<or> c = 95)"

text \<open>
  Lower-casing of one code unit. Only the letters A to Z are mapped; the full Unicode
  mapping of \<^verbatim>\<open>toLowerCase\<close> on other code units is not modelled (they stay as they are).
  For the \<^verbatim>\<open>/i\<close> flag of a regular expression without the \<^verbatim>\<open>u\<close> flag this is exact for a
  pattern of ASCII letters: a code unit above 127 never matches an ASCII letter.
\<close>

definition lower_unit :: "nat \<Rightarrow> nat" where
  "lower_unit c = (if 65 \<le> c \<and> c \<le> 90 then c + 32 else c)"

definition toLowerCase :: "jsstring \<Rightarrow> jsstring" where
  "toLowerCase s = map lower_unit s"

text \<open>\<^verbatim>\<open>s.startsWith(p)\<close>, \<^verbatim>\<open>s.includes(p)\<close> and \<^verbatim>\<open>s.replace(p, '')\<close> for a string pattern
  (which removes the first occurrence only).\<close>

fun str_startsWith :: "jsstring \<Rightarrow> jsstring \<Rightarrow> bool" where
  "str_startsWith s [] = True"
| "str_startsWith [] (p # ps) = False"
| "str_startsWith (c # cs) (p # ps) = (c = p \<and> str_startsWith cs ps)"

fun str_includes :: "jsstring \<Rightarrow> jsstring \<Rightarrow> bool" where
  "str_includes [] p = (p = [])"
| "str_includes (c # cs) p = (str_startsWith (c # cs) p \<or> str_includes cs p)"

fun str_replace :: "jsstring \<Rightarrow> jsstring \<Rightarrow> jsstring" where
  "str_replace [] p = []"
| "str_replace (c # cs) p =
     (if str_startsWith (c # cs) p then drop (length p) (c # cs) else c # str_replace cs p)"

text \<open>\<open>startsWith_ci s p\<close>: \<open>s\<close> begins with the lower-case ASCII pattern \<open>p\<close>, ignoring case.\<close>

definition startsWith_ci :: "jsstring \<Rightarrow> jsstring \<Rightarrow> bool" where
  "startsWith_ci s p = (map lower_unit (take (length p) s) = p)"

definition trim :: "jsstring \<Rightarrow> jsstring" where
  "trim s = rev (dropWhile is_space (rev (dropWhile is_space s)))"

text \<open>Decimal rendering of a non-negative integer inside a template literal.\<close>

fun showNat :: "nat \<Rightarrow> jsstring" where
  "showNat n = (if n < 10 then [48 + n] else showNat (n div 10) @ [48 + n mod 10])"

declare showNat.simps [simp del]

section \<open>Response extraction: the cleaning pass\<close>

text \<open>The list \<^verbatim>\<open>phrasesToRemove\<close> of \<^verbatim>\<open>getLatestResponseText\<close>, in the source's order.\<close>

definition phrasesToRemove :: "jsstring list" where
  "phrasesToRemove =
    [ascii ''ChatGPT said:'',
     ascii ''ChatGPT said'',
     ascii ''Pro thinking'',
     ascii ''Answer now'',
     ascii ''Extended thinking'',
     ascii ''Show thinking'',
     ascii ''Hide thinking'',
     ascii ''Reasoning'',
     ascii ''Thinking...'',
     ascii ''Thinking'' @ [8230],
     [8226, 32]]"

lemma str_replace_shorter:
  "p \<noteq> [] \<Longrightarrow> str_includes s p \<Longrightarrow> length (str_replace s p) < length s"
proof (induction s)
  case Nil
  then show ?case by simp
next
  case (Cons c cs)
  show ?case
  proof (cases "str_startsWith (c # cs) p")
    case True
    with Cons.prems(1) show ?thesis by (cases p) simp_all
  next
    case False
    with Cons show ?thesis by simp
  qed
qed

text \<open>
  The inner loop \<^verbatim>\<open>while (cleaned.includes(phrase)) cleaned = cleaned.replace(phrase, '')\<close>.
  Every phrase of the list is non-empty; for an empty phrase the source's loop would not
  end, and the model stops at once.
\<close>

function removePhrase :: "jsstring \<Rightarrow> jsstring \<Rightarrow> jsstring" where
  "removePhrase phrase cleaned =
     (if phrase \<noteq> [] \<and> str_includes cleaned phrase
      then removePhrase phrase (str_replace cleaned phrase)
      else cleaned)"
  by pat_completeness auto
termination
  by (relation "measure (\<lambda>(p, s). length s)") (auto simp: str_replace_shorter)

declare removePhrase.simps [simp del]

text \<open>\<^verbatim>\<open>cleaned.replace(/^Thinking\s*/i, '')\<close>: one match, anchored at the start.\<close>

definition stripLeadingThinking :: "jsstring \<Rightarrow> jsstring" where
  "stripLeadingThinking s =
     (if startsWith_ci s (ascii ''thinking'') then dropWhile is_space (drop 8 s) else s)"

text \<open>
  \<^verbatim>\<open>/Pro\s+thinking\s*\u2022?\s*/gi\<close>. \<open>matchProThinking s\<close> matches the expression at the
  start of \<open>s\<close> and returns what follows the match. Each quantifier is greedy and is
  followed by something its own characters cannot match, so there is no backtracking.
\<close>

definition dropBullet :: "jsstring \<Rightarrow> jsstring" where
  "dropBullet s = (case s of [] \<Rightarrow> [] | c # cs \<Rightarrow> if c = 8226 then cs else c # cs)"

definition matchProThinking :: "jsstring \<Rightarrow> jsstring option" where
  "matchProThinking s =
     (if startsWith_ci s (ascii ''pro'') then
        (case drop 3 s of
           [] \<Rightarrow> None
         | c # cs \<Rightarrow>
             if is_space c then
               (let r = dropWhile is_space cs in
                if startsWith_ci r (ascii ''thinking'')
                then Some (dropWhile is_space (dropBullet (dropWhile is_space (drop 8 r))))
                else None)
             else None)
      else None)"

lemma length_dropBullet: "length (dropBullet s) \<le> length s"
  by (cases s) (simp_all add: dropBullet_def)

lemma matchProThinking_shorter:
  assumes "matchProThinking s = Some r"
  shows "length r < length s"
proof -
  from assms obtain c cs where d: "drop 3 s = c # cs"
    by (auto simp: matchProThinking_def split: if_splits list.splits)
  from assms d have r: "r = dropWhile is_space (dropBullet (dropWhile is_space
      (drop 8 (dropWhile is_space cs))))"
    by (auto simp: matchProThinking_def Let_def split: if_splits)
  have "length r \<le> length (dropBullet (dropWhile is_space (drop 8 (dropWhile is_space cs))))"
    unfolding r by (rule length_dropWhile_le)
  also have "\<dots> \<le> length (dropWhile is_space (drop 8 (dropWhile is_space cs)))"
    by (rule length_dropBullet)
  also have "\<dots> \<le> length (drop 8 (dropWhile is_space cs))"
    by (rule length_dropWhile_le)
  also have "\<dots> \<le> length (dropWhile is_space cs)"
    by simp
  also have "\<dots> \<le> length cs"
    by (rule length_dropWhile_le)
  also have "\<dots> < length (drop 3 s)"
    by (simp add: d)
  also have "\<dots> \<le> length s"
    by simp
  finally show ?thesis .
qed

text \<open>The global replacement: matches are removed from left to right, the search going on
  after each match.\<close>

function removeProThinking :: "jsstring \<Rightarrow> jsstring" where
  "removeProThinking [] = []"
| "removeProThinking (c # cs) =
     (case matchProThinking (c # cs) of
        Some rest \<Rightarrow> removeProThinking rest
      | None \<Rightarrow> c # removeProThinking cs)"
  by pat_completeness auto
termination
  by (relation "measure length") (auto dest: matchProThinking_shorter)

text \<open>
  \<^verbatim>\<open>/^\d+\s*(seconds?|secs?)\s*/i\<close>. \<open>matchTimer s\<close> returns what follows the match. The
  first alternative is tried first; whatever it matches, the trailing \<^verbatim>\<open>\s*\<close> succeeds.
\<close>

definition dropOptionalS :: "jsstring \<Rightarrow> jsstring" where
  "dropOptionalS s = (case s of [] \<Rightarrow> [] | c # cs \<Rightarrow> if lower_unit c = 115 then cs else c # cs)"

definition matchTimer :: "jsstring \<Rightarrow> jsstring option" where
  "matchTimer s =
     (case s of
        [] \<Rightarrow> None
      | c # cs \<Rightarrow>
          if is_digit c then
            (let r = dropWhile is_space (dropWhile is_digit cs) in
             if startsWith_ci r (ascii ''second'')
             then Some (dropWhile is_space (dropOptionalS (drop 6 r)))
             else if startsWith_ci r (ascii ''sec'')
             then Some (dropWhile is_space (dropOptionalS (drop 3 r)))
             else None)
          else None)"

definition stripLeadingTimer :: "jsstring \<Rightarrow> jsstring" where
  "stripLeadingTimer s = (case matchTimer s of Some rest \<Rightarrow> rest | None \<Rightarrow> s)"

text \<open>\<^verbatim>\<open>cleaned.replace(/\s+/g, ' ')\<close>: every maximal run of white space becomes one space.\<close>

function collapseWhitespace :: "jsstring \<Rightarrow> jsstring" where
  "collapseWhitespace [] = []"
| "collapseWhitespace (c # cs) =
     (if is_space c then 32 # collapseWhitespace (dropWhile is_space cs)
      else c # collapseWhitespace cs)"
  by pat_completeness auto
termination
  by (relation "measure length") (auto simp: length_dropWhile_le less_Suc_eq_le)

text \<open>\<^verbatim>\<open>cleanText\<close>: the phrase loop, the three replacements, then white space.\<close>

definition cleanText :: "jsstring \<Rightarrow> jsstring" where
  "cleanText text0 =
     (let cleaned = fold removePhrase phrasesToRemove text0;
          cleaned = stripLeadingThinking cleaned;
          cleaned = removeProThinking cleaned;
          cleaned = stripLeadingTimer cleaned;
          cleaned = trim (collapseWhitespace cleaned)
      in cleaned)"

text \<open>
  Predicates for text that holds no chrome any more: \<open>hasProThinking\<close> is
  \<^verbatim>\<open>/Pro\s+thinking\s*\u2022?\s*/i.test\<close>, and \<open>chromeFree s\<close> says that none of the four removal
  steps of \<^verbatim>\<open>cleanText\<close> finds anything in \<open>s\<close>.
\<close>

fun hasProThinking :: "jsstring \<Rightarrow> bool" where
  "hasProThinking [] = False"
| "hasProThinking (c # cs) = (matchProThinking (c # cs) \<noteq> None \<or> hasProThinking cs)"

definition chromeFree :: "jsstring \<Rightarrow> bool" where
  "chromeFree s =
     (list_all (\<lambda>phrase. \<not> str_includes s phrase) phrasesToRemove
      \<and> \<not> startsWith_ci s (ascii ''thinking'')
      \<and> \<not> hasProThinking s
      \<and> matchTimer s = None)"

text \<open>White space in normal form: every white-space unit is a single U+0020 that is not
  followed by white space.\<close>

fun singleSpaced :: "jsstring \<Rightarrow> bool" where
  "singleSpaced [] = True"
| "singleSpaced [c] = (is_space c \<longrightarrow> c = 32)"
| "singleSpaced (c # d # r) = ((is_space c \<longrightarrow> c = 32 \<and> \<not> is_space d) \<and> singleSpaced (d # r))"

section \<open>The page as the code observes it\<close>

text \<open>
  The functions passed to \<^verbatim>\<open>page.evaluate\<close> read the document through a handful of DOM
  queries. A turn element (a match of \<^verbatim>\<open>[data-testid^="conversation-turn-"]\<close>) is the record
  of what these queries return on it:
  \<^item> \<open>innerText\<close>: \<^verbatim>\<open>HTMLElement.innerText\<close>, the rendered text;
  \<^item> \<open>strippedTextContent\<close>: \<^verbatim>\<open>textContent\<close> of the clone once every element matching one
    of \<^verbatim>\<open>chromeSelectors\<close> has been removed;
  \<^item> \<open>markdownTextContent\<close>: \<^verbatim>\<open>textContent\<close> of the first element matching
    \<^verbatim>\<open>.markdown, .prose, [class*="markdown"]\<close> inside the turn, \<open>None\<close> when there is none;
  \<^item> \<open>hasCopyButton\<close>: whether \<^verbatim>\<open>querySelector('[data-testid="copy-turn-action-button"]')\<close>
    on the turn finds an element;
  \<^item> \<open>hasThinkingUI\<close>: the same for
    \<^verbatim>\<open>[class*="thinking"], [class*="reasoning"], [data-testid*="thinking"]\<close>.

  A page is the list of its turn elements in document order and the \<^verbatim>\<open>innerText\<close> of each
  element matching \<^verbatim>\<open>[data-message-author-role="assistant"]\<close>.
\<close>

record turnElement =
  innerText :: jsstring
  strippedTextContent :: jsstring
  markdownTextContent :: "jsstring option"
  hasCopyButton :: bool
  hasThinkingUI :: bool

record page =
  turns :: "turnElement list"
  assistantMsgs :: "jsstring list"

text \<open>
  What the code may throw. Every \<^verbatim>\<open>throw new Error(...)\<close> of the source is a constructor
  (\<open>Timeout\<close> with the timeout in minutes and the elapsed seconds, \<open>ModelNotFound\<close> with
  the wanted name and the labels found); \<open>DriverFailure\<close> stands for an error raised inside
  the browser driver, with its message.
\<close>

datatype failure =
    NavigationFailed
  | NotLoggedIn
  | TextareaNotFound
  | Timeout nat nat
  | ModelSelectorNotFound
  | ModelNotFound jsstring "jsstring list"
  | AttachButtonNotFound
  | TypeAfterUploadFailed
  | DriverFailure jsstring

text \<open>A view of the page at one \<^verbatim>\<open>await\<close>: the page, or the message with which
  \<^verbatim>\<open>getPage()\<close> or \<^verbatim>\<open>page.evaluate\<close> rejects.\<close>

type_synonym pageView = "jsstring + page"

section \<open>Response extraction\<close>

text \<open>The function evaluated in the page by \<^verbatim>\<open>getLatestResponseText\<close>, after the definition
  of \<^verbatim>\<open>cleanText\<close>: the guard on the number of turns and the four strategies.\<close>

definition assistantStrategy :: "page \<Rightarrow> jsstring option" where
  "assistantStrategy p =
     (if assistantMsgs p \<noteq> [] then
        (let msgText = trim (last (assistantMsgs p)) in
         if msgText \<noteq> [] then Some (cleanText msgText) else None)
      else None)"

definition markdownStrategy :: "turnElement \<Rightarrow> page \<Rightarrow> jsstring option" where
  "markdownStrategy lastTurn p =
     (case markdownTextContent lastTurn of
        Some content \<Rightarrow>
          (let mdText = trim content in
           if mdText \<noteq> [] then Some (cleanText mdText) else assistantStrategy p)
      | None \<Rightarrow> assistantStrategy p)"

definition strippedStrategy :: "turnElement \<Rightarrow> page \<Rightarrow> jsstring option" where
  "strippedStrategy lastTurn p =
     (let stripped = trim (strippedTextContent lastTurn) in
      if stripped \<noteq> [] \<and> cleanText stripped \<noteq> [] then Some (cleanText stripped)
      else markdownStrategy lastTurn p)"

definition evaluateLatestResponse :: "page \<Rightarrow> jsstring option" where
  "evaluateLatestResponse p =
     (if length (turns p) < 2 then None
      else
        (let lastTurn = last (turns p);
             visible = trim (innerText lastTurn) in
         if visible \<noteq> [] \<and> cleanText visible \<noteq> [] then Some (cleanText visible)
         else strippedStrategy lastTurn p))"

text \<open>\<^verbatim>\<open>getLatestResponseText\<close>: any failure of the driver is caught and gives \<^verbatim>\<open>null\<close>.\<close>

definition getLatestResponseText :: "pageView \<Rightarrow> jsstring option" where
  "getLatestResponseText v = (case v of Inl msg \<Rightarrow> None | Inr p \<Rightarrow> evaluateLatestResponse p)"

section \<open>Completion detection\<close>

text \<open>\<^verbatim>\<open>/\b(thinking|reasoning)\b/i.test(turnText)\<close>. Both words begin and end with a word
  character, so the boundaries ask for a non-word character (or an end of the text) on
  each side. The flag of \<open>thinkingTest\<close> says whether the previous unit is a word character.\<close>

definition wordAt :: "jsstring \<Rightarrow> jsstring \<Rightarrow> bool" where
  "wordAt w s =
     (startsWith_ci s w \<and> (case drop (length w) s of [] \<Rightarrow> True | d # ds \<Rightarrow> \<not> is_word d))"

fun thinkingTest :: "bool \<Rightarrow> jsstring \<Rightarrow> bool" where
  "thinkingTest prevWord [] = False"
| "thinkingTest prevWord (c # cs) =
     ((\<not> prevWord \<and> (wordAt (ascii ''thinking'') (c # cs) \<or> wordAt (ascii ''reasoning'') (c # cs)))
      \<or> thinkingTest (is_word c) cs)"

record indicators =
  turnCount :: nat
  lastTurnHasCopy :: bool
  isThinking :: bool

definition evaluateIndicators :: "page \<Rightarrow> indicators" where
  "evaluateIndicators p =
     (if 2 \<le> length (turns p) then
        (let lastTurn = last (turns p);
             turnText = innerText lastTurn
         in \<lparr>turnCount = length (turns p),
             lastTurnHasCopy = hasCopyButton lastTurn,
             isThinking = (hasThinkingUI lastTurn
                           \<or> (thinkingTest False turnText \<and> length turnText < 200))\<rparr>)
      else \<lparr>turnCount = length (turns p), lastTurnHasCopy = False, isThinking = False\<rparr>)"

record detection =
  complete :: bool
  contentLength :: nat
  newStableCount :: nat

definition FALLBACK_STABLE_THRESHOLD :: nat where
  "FALLBACK_STABLE_THRESHOLD = 10"

text \<open>The stability check: \<^verbatim>\<open>newStableCount++\<close> when the length is positive and unchanged,
  \<^verbatim>\<open>newStableCount = 0\<close> otherwise.\<close>

definition stabilityUpdate :: "nat \<Rightarrow> nat \<Rightarrow> nat \<Rightarrow> nat" where
  "stabilityUpdate lastContentLength stableCount currentLength =
     (if 0 < currentLength \<and> currentLength = lastContentLength then stableCount + 1 else 0)"

text \<open>
  \<^verbatim>\<open>isGenerationComplete\<close>. The indicators are read from the page at the first
  \<^verbatim>\<open>page.evaluate\<close>, the text at a second one inside \<^verbatim>\<open>getLatestResponseText\<close>; the
  page may have changed in between, so the function takes both views. A failure of the
  first is not caught here.
\<close>

definition isGenerationComplete :: "pageView \<Rightarrow> pageView \<Rightarrow> nat \<Rightarrow> nat \<Rightarrow> failure + detection" where
  "isGenerationComplete v1 v2 lastContentLength stableCount =
     (case v1 of
        Inl msg \<Rightarrow> Inl (DriverFailure msg)
      | Inr p \<Rightarrow>
          (let ind = evaluateIndicators p;
               currentLength = (case getLatestResponseText v2 of None \<Rightarrow> 0 | Some t \<Rightarrow> length t);
               newStable = stabilityUpdate lastContentLength stableCount currentLength;
               highConfidence =
                 ((lastTurnHasCopy ind \<and> 0 < currentLength \<and> 1 \<le> newStable)
                  \<or> (\<not> isThinking ind \<and> 0 < currentLength
                      \<and> FALLBACK_STABLE_THRESHOLD \<le> newStable))
           in Inr \<lparr>complete = highConfidence, contentLength = currentLength,
                   newStableCount = newStable\<rparr>))"

text \<open>Successive checks on a sequence of pages, each check fed with the length and the
  stable count of the one before, as the loop of \<^verbatim>\<open>pollUntilComplete\<close> does.\<close>

fun detectorRuns :: "nat \<Rightarrow> nat \<Rightarrow> page list \<Rightarrow> detection list" where
  "detectorRuns lastContentLength stableCount [] = []"
| "detectorRuns lastContentLength stableCount (p # ps) =
     (case isGenerationComplete (Inr p) (Inr p) lastContentLength stableCount of
        Inl e \<Rightarrow> []
      | Inr r \<Rightarrow> r # detectorRuns (contentLength r) (newStableCount r) ps)"

section \<open>Backoff\<close>

definition FIB_DELAYS :: "nat list" where
  "FIB_DELAYS = [2, 3, 5, 8, 13, 21, 30]"

text \<open>\<^verbatim>\<open>fibonacciBackoff(pollNumber, maxSeconds = 30)\<close>, in milliseconds. The index is
  at most \<open>length FIB_DELAYS - 1\<close>, so the read is in range.\<close>

definition fibonacciBackoff :: "nat \<Rightarrow> nat \<Rightarrow> nat" where
  "fibonacciBackoff pollNumber maxSeconds =
     (let index = min pollNumber (length FIB_DELAYS - 1);
          seconds = min (FIB_DELAYS ! index) maxSeconds
      in seconds * 1000)"

section \<open>Option matching in the model menu\<close>

text \<open>
  An entry of \<^verbatim>\<open>availableOptions\<close>: the normalised label and the element it was read from
  (a handle, here a number). The list is what the discovery loop of \<^verbatim>\<open>selectModel\<close> has
  collected from the open menu; the geometry and the styles it reads are not modelled.
  \<open>selection\<close> is the object the evaluated function returns, with the element it clicked.
\<close>

record menuOption =
  optText :: jsstring
  optElement :: nat

record selection =
  sel_success :: bool
  selected :: "jsstring option"
  clicked :: "nat option"
  available :: "jsstring list"

definition chosen :: "menuOption list \<Rightarrow> menuOption \<Rightarrow> selection" where
  "chosen availableOptions opt =
     \<lparr>sel_success = True, selected = Some (optText opt), clicked = Some (optElement opt),
      available = map optText availableOptions\<rparr>"

text \<open>The three loops at the end of the evaluated function: each returns at its first hit
  (\<open>find\<close>), and a later loop runs only when the earlier ones found nothing.\<close>

definition matchOption :: "menuOption list \<Rightarrow> jsstring \<Rightarrow> selection" where
  "matchOption availableOptions targetLower =
     (case find (\<lambda>opt. toLowerCase (optText opt) = targetLower) availableOptions of
        Some opt \<Rightarrow> chosen availableOptions opt
      | None \<Rightarrow>
     (case find (\<lambda>opt. str_startsWith (toLowerCase (optText opt)) targetLower) availableOptions of
        Some opt \<Rightarrow> chosen availableOptions opt
      | None \<Rightarrow>
     (case find (\<lambda>opt. str_includes (toLowerCase (optText opt)) targetLower) availableOptions of
        Some opt \<Rightarrow> chosen availableOptions opt
      | None \<Rightarrow>
          \<lparr>sel_success = False, selected = None, clicked = None,
           available = map optText availableOptions\<rparr>)))"

section \<open>Session state and the browser driver\<close>

record SessionState =
  isLoggedIn :: bool
  currentModel :: "jsstring option"
  conversationId :: "jsstring option"
  currentProjectUrl :: "jsstring option"

text \<open>
  The module variables that the operations read and write: \<^verbatim>\<open>sessionState\<close> and
  \<^verbatim>\<open>sessionInitialized\<close> of the interaction module, and \<open>browserRunning\<close> for
  \<^verbatim>\<open>page !== null && !page.isClosed()\<close> of the browser module. The page is taken not to be
  closed from outside while an operation runs.
\<close>

record globals =
  sessionState :: SessionState
  sessionInitialized :: bool
  browserRunning :: bool

definition initialGlobals :: globals where
  "initialGlobals =
     \<lparr>sessionState = \<lparr>isLoggedIn = False, currentModel = None, conversationId = None,
                        currentProjectUrl = None\<rparr>,
      sessionInitialized = False, browserRunning = False\<rparr>"

text \<open>
  What the browser answers during one operation:
  \<^item> \<open>launchFailure\<close>: the message with which \<^verbatim>\<open>launchBrowser()\<close> rejects, if it does;
  \<^item> \<open>navigateOk\<close>: the result of \<^verbatim>\<open>navigateTo(CONFIG.chatgptUrl)\<close>;
  \<^item> \<open>loginView n\<close>: the three \<^verbatim>\<open>elementExists\<close> answers of login check number \<open>n\<close>;
  \<^item> \<open>projectLinks\<close>: \<^verbatim>\<open>href\<close> and \<^verbatim>\<open>textContent\<close> of each \<^verbatim>\<open>a[href*="/g/g-p-"]\<close>, in
    document order;
  \<^item> \<open>gotoFailure url\<close>: the message with which \<^verbatim>\<open>page.goto(url)\<close> rejects, if it does;
  \<^item> \<open>currentUrl\<close>, \<open>urlAfterSend\<close>: \<^verbatim>\<open>page.url()\<close> before the project switch and after
    the prompt is sent;
  \<^item> \<open>modelButtonText\<close>: the text found by the first evaluation of \<^verbatim>\<open>selectModel\<close>;
  \<^item> \<open>selectorClicked\<close>: whether the model selector button was found and clicked;
  \<^item> \<open>dropdownOptions\<close>: the options discovered in the menu, \<open>None\<close> when no container
    was found;
  \<^item> \<open>typed\<close>, \<open>attachClicked\<close>: the results of \<^verbatim>\<open>typeText\<close> and of
    \<^verbatim>\<open>clickElement(SELECTORS.attachButton)\<close>;
  \<^item> \<open>fileChooserFailure\<close>: the message with which waiting for the file chooser or
    \<^verbatim>\<open>setFiles\<close> rejects, if it does;
  \<^item> \<open>defaultProject\<close>: \<^verbatim>\<open>CONFIG.defaultProject\<close>, which the interaction module reads and
    the configuration as shipped does not define; \<open>[]\<close> is an absent or empty value.
\<close>

record loginProbe =
  hasLoggedInIndicator :: bool
  hasLoginPrompt :: bool
  hasPromptArea :: bool

record driver =
  launchFailure :: "jsstring option"
  navigateOk :: bool
  loginView :: "nat \<Rightarrow> loginProbe"
  projectLinks :: "(jsstring \<times> jsstring) list"
  gotoFailure :: "jsstring \<Rightarrow> jsstring option"
  currentUrl :: jsstring
  urlAfterSend :: jsstring
  modelButtonText :: "jsstring option"
  selectorClicked :: bool
  dropdownOptions :: "menuOption list option"
  typed :: bool
  attachClicked :: bool
  fileChooserFailure :: "jsstring option"
  defaultProject :: jsstring

text \<open>Truthiness of a \<^verbatim>\<open>string | null\<close> value: neither \<^verbatim>\<open>null\<close> nor the empty string.\<close>

definition truthy :: "jsstring option \<Rightarrow> bool" where
  "truthy v = (case v of None \<Rightarrow> False | Some s \<Rightarrow> s \<noteq> [])"

text \<open>\<open>errorMessage\<close> is the \<^verbatim>\<open>error.message\<close> that the \<^verbatim>\<open>catch\<close> blocks read, as the
  template literals of the source build it.\<close>

definition joinComma :: "jsstring list \<Rightarrow> jsstring" where
  "joinComma xs = (case xs of [] \<Rightarrow> [] | y # ys \<Rightarrow> y @ concat (map (\<lambda>z. ascii '', '' @ z) ys))"

fun errorMessage :: "failure \<Rightarrow> jsstring" where
  "errorMessage NavigationFailed = ascii ''Failed to navigate to ChatGPT''"
| "errorMessage NotLoggedIn =
     ascii ''Not logged in to ChatGPT. Please log in manually in the browser window, then retry.''"
| "errorMessage TextareaNotFound =
     ascii ''Failed to find prompt textarea. The ChatGPT UI may have changed.''"
| "errorMessage (Timeout timeoutMinutes elapsedSeconds) =
     ascii ''Timeout after '' @ showNat timeoutMinutes @ ascii '' minutes (''
       @ showNat elapsedSeconds @ ascii ''s). Response may still be generating.''"
| "errorMessage ModelSelectorNotFound = ascii ''Failed to find model selector button.''"
| "errorMessage (ModelNotFound modelName avail) =
     [34] @ modelName @ [34] @ ascii '' not found. Available options: ''
       @ (if avail \<noteq> [] then joinComma avail else ascii ''none detected'')"
| "errorMessage AttachButtonNotFound = ascii ''Failed to find attach/upload button.''"
| "errorMessage TypeAfterUploadFailed = ascii ''Failed to type prompt after file upload.''"
| "errorMessage (DriverFailure msg) = msg"

record SimpleResult =
  success :: bool
  message :: jsstring

record AskResult =
  response :: jsstring
  elapsed_seconds :: nat
  model :: "jsstring option"
  chat_id :: "jsstring option"
  poll_count :: nat
  error :: "jsstring option"

section \<open>Session start, project selection, new conversation\<close>

definition checkLoginStatus :: "loginProbe \<Rightarrow> bool" where
  "checkLoginStatus v = ((hasLoggedInIndicator v \<or> hasPromptArea v) \<and> \<not> hasLoginPrompt v)"

text \<open>The retry loop of \<^verbatim>\<open>ensureSession\<close>: at most three checks, left at the first success.\<close>

function loginLoop :: "driver \<Rightarrow> nat \<Rightarrow> bool" where
  "loginLoop d attempt =
     (if attempt < 3 then
        (if checkLoginStatus (loginView d attempt) then True else loginLoop d (attempt + 1))
      else False)"
  by pat_completeness auto
termination
  by (relation "measure (\<lambda>(d, attempt). 3 - attempt)") auto

declare loginLoop.simps [simp del]

text \<open>The link search evaluated by \<^verbatim>\<open>selectProject\<close>: an exact match of the link text
  first, then a partial one, among the links whose address contains \<^verbatim>\<open>/project\<close>.\<close>

definition findProjectLink :: "(jsstring \<times> jsstring) list \<Rightarrow> jsstring \<Rightarrow> jsstring option" where
  "findProjectLink links name =
     (case find (\<lambda>(href, content). str_includes href (ascii ''/project'')
                   \<and> toLowerCase (trim content) = toLowerCase name) links of
        Some (href, content) \<Rightarrow> Some href
      | None \<Rightarrow>
     (case find (\<lambda>(href, content). str_includes href (ascii ''/project'')
                   \<and> str_includes (toLowerCase (trim content)) (toLowerCase name)) links of
        Some (href, content) \<Rightarrow> Some href
      | None \<Rightarrow> None))"

text \<open>\<^verbatim>\<open>selectProject\<close> from the search of the link on, that is once \<^verbatim>\<open>ensureSession\<close>
  has returned.\<close>

definition selectProjectInSession :: "driver \<Rightarrow> globals \<Rightarrow> jsstring \<Rightarrow> globals \<times> SimpleResult" where
  "selectProjectInSession d g projectName =
     (case findProjectLink (projectLinks d) projectName of
        None \<Rightarrow>
          (g, \<lparr>success = False,
               message = ascii ''Project '' @ [34] @ projectName @ [34]
                           @ ascii '' not found in sidebar.''\<rparr>)
      | Some projectUrl \<Rightarrow>
          (let fullUrl = (if str_startsWith projectUrl (ascii ''http'') then projectUrl
                          else ascii ''https://chatgpt.com'' @ projectUrl)
           in case gotoFailure d fullUrl of
                Some e \<Rightarrow>
                  (g, \<lparr>success = False, message = ascii ''Failed to select project: '' @ e\<rparr>)
              | None \<Rightarrow>
                  (g\<lparr>sessionState := (sessionState g)\<lparr>currentProjectUrl := Some fullUrl,
                                                      conversationId := None\<rparr>\<rparr>,
                   \<lparr>success = True,
                    message = ascii ''Selected project: '' @ projectName
                      @ ascii ''. New conversations will stay within this project.''\<rparr>)))"

text \<open>
  \<^verbatim>\<open>ensureSession\<close>. The state it has written stays written when it throws, so the state
  is returned beside the outcome. Its call of \<^verbatim>\<open>selectProject(CONFIG.defaultProject)\<close>
  enters \<^verbatim>\<open>ensureSession\<close> again, which returns at once (the session is initialised and
  the browser runs), so what runs there is \<open>selectProjectInSession\<close>; its result is only
  logged.
\<close>

definition ensureSession :: "driver \<Rightarrow> globals \<Rightarrow> globals \<times> (failure + unit)" where
  "ensureSession d g =
     (if sessionInitialized g \<and> browserRunning g then (g, Inr ())
      else
        (case (if browserRunning g then None else launchFailure d) of
           Some e \<Rightarrow> (g, Inl (DriverFailure e))
         | None \<Rightarrow>
             (let g1 = g\<lparr>browserRunning := True\<rparr> in
              if \<not> navigateOk d then (g1, Inl NavigationFailed)
              else
                (let loggedIn = loginLoop d 0;
                     g2 = g1\<lparr>sessionState := (sessionState g1)\<lparr>isLoggedIn := loggedIn\<rparr>,
                             sessionInitialized := True\<rparr>
                 in if \<not> loggedIn then (g2, Inl NotLoggedIn)
                    else if defaultProject d \<noteq> []
                            \<and> \<not> truthy (currentProjectUrl (sessionState g2))
                    then (fst (selectProjectInSession d g2 (defaultProject d)), Inr ())
                    else (g2, Inr ())))))"

definition selectProject :: "driver \<Rightarrow> globals \<Rightarrow> jsstring \<Rightarrow> globals \<times> SimpleResult" where
  "selectProject d g projectName =
     (case ensureSession d g of
        (g1, Inl e) \<Rightarrow>
          (g1, \<lparr>success = False,
                message = ascii ''Failed to select project: '' @ errorMessage e\<rparr>)
      | (g1, Inr u) \<Rightarrow> selectProjectInSession d g1 projectName)"

text \<open>\<^verbatim>\<open>newConversation\<close>. The result of \<^verbatim>\<open>navigateTo(targetUrl)\<close> is not looked at and the
  navigation writes none of the variables of the model.\<close>

definition newConversation :: "driver \<Rightarrow> globals \<Rightarrow> globals \<times> SimpleResult" where
  "newConversation d g =
     (case ensureSession d g of
        (g1, Inl e) \<Rightarrow>
          (g1, \<lparr>success = False,
                message = ascii ''Failed to start new conversation: '' @ errorMessage e\<rparr>)
      | (g1, Inr u) \<Rightarrow>
          (let g2 = g1\<lparr>sessionState := (sessionState g1)\<lparr>conversationId := None\<rparr>\<rparr>;
               inProject = (if truthy (currentProjectUrl (sessionState g2))
                            then ascii '' within current project'' else [])
           in (g2, \<lparr>success = True,
                    message = ascii ''New conversation started'' @ inProject @ ascii ''.''\<rparr>)))"

section \<open>Model selection and prompt sending\<close>






section \<open>The blocking poll loop\<close>

text \<open>
  Time and the page during one run of \<^verbatim>\<open>pollUntilComplete\<close>:
  \<^item> \<open>startTime\<close>: \<^verbatim>\<open>Date.now()\<close> on entry, in milliseconds;
  \<^item> \<open>viewAt k j\<close>: the page as evaluation \<open>j\<close> of poll \<open>k\<close> sees it (polls counted from 1;
    \<open>j = 0\<close> reads the indicators, \<open>j = 1\<close> the text inside the check, \<open>j = 2\<close> the final
    text once the check has reported completion);
  \<^item> \<open>overhead k\<close>: the milliseconds poll \<open>k\<close> takes beyond its sleep.
\<close>

record pollWorld =
  startTime :: nat
  viewAt :: "nat \<Rightarrow> nat \<Rightarrow> pageView"
  overhead :: "nat \<Rightarrow> nat"

record pollResult =
  poll_response :: jsstring
  pollCount :: nat
  elapsedSeconds :: nat

lemma fibonacciBackoff_positive: "0 < fibonacciBackoff pollNumber 30"
proof -
  have len: "length FIB_DELAYS - 1 = 6"
    by (simp add: FIB_DELAYS_def)
  have "min pollNumber (length FIB_DELAYS - 1) \<in> set [0..<7]"
    unfolding len by simp
  moreover have "\<forall>k\<in>set [0..<7]. 0 < FIB_DELAYS ! k"
    by code_simp
  ultimately have "0 < FIB_DELAYS ! min pollNumber (length FIB_DELAYS - 1)"
    by blast
  then show ?thesis
    by (simp add: fibonacciBackoff_def Let_def)
qed

text \<open>
  The loop of \<^verbatim>\<open>pollUntilComplete\<close>. \<open>now\<close> is \<^verbatim>\<open>Date.now()\<close> at the loop test. Each round
  advances the clock by the backoff delay and the overhead, so the loop ends; the timeout
  is in whole minutes.
\<close>

function pollLoop :: "pollWorld \<Rightarrow> nat \<Rightarrow> nat \<Rightarrow> nat \<Rightarrow> nat \<Rightarrow> nat \<Rightarrow> nat \<Rightarrow> failure + pollResult" where
  "pollLoop w timeoutMinutes deadline now polls lastContentLength stableCount =
     (if now < deadline then
        (let waitMs = fibonacciBackoff polls 30;
             polls1 = polls + 1;
             now1 = now + waitMs + overhead w polls1
         in case isGenerationComplete (viewAt w polls1 0) (viewAt w polls1 1)
                   lastContentLength stableCount of
              Inl e \<Rightarrow> Inl e
            | Inr result \<Rightarrow>
                if complete result then
                  Inr \<lparr>poll_response = (case getLatestResponseText (viewAt w polls1 2) of
                                          None \<Rightarrow> [] | Some t \<Rightarrow> t),
                       pollCount = polls1,
                       elapsedSeconds = (now1 - startTime w) div 1000\<rparr>
                else pollLoop w timeoutMinutes deadline now1 polls1
                       (contentLength result) (newStableCount result))
      else Inl (Timeout timeoutMinutes ((now - startTime w) div 1000)))"
  by pat_completeness auto
termination
proof (relation "measure (\<lambda>(w, tm, deadline, now, rest). deadline - now)")
  show "wf (measure (\<lambda>(w, tm, deadline, now, rest). deadline - now))"
    by simp
next
  fix w :: pollWorld and timeoutMinutes deadline now polls lastContentLength stableCount :: nat
    and waitMs polls1 now1 :: nat and r :: "failure + detection" and result :: detection
  assume "now < deadline" and "waitMs = fibonacciBackoff polls 30"
    and "polls1 = polls + 1" and "now1 = now + waitMs + overhead w polls1"
  moreover have "0 < fibonacciBackoff polls 30"
    by (rule fibonacciBackoff_positive)
  ultimately show "((w, timeoutMinutes, deadline, now1, polls1, contentLength result,
          newStableCount result),
         (w, timeoutMinutes, deadline, now, polls, lastContentLength, stableCount))
        \<in> measure (\<lambda>(w, tm, deadline, now, rest). deadline - now)"
    by simp
qed

declare pollLoop.simps [simp del]


section \<open>The blocking operations\<close>










section \<open>Examples\<close>

text \<open>Small pages for the concrete instances below: a finished user turn, an answer turn
  with a given text and with or without the copy button, and a turn that shows only a
  reasoning label, inside an element that the chrome selectors strip.\<close>

definition userTurn :: turnElement where
  "userTurn = \<lparr>innerText = ascii ''You said: hi'', strippedTextContent = ascii ''hi'',
     markdownTextContent = None, hasCopyButton = True, hasThinkingUI = False\<rparr>"

definition answerTurn :: "jsstring \<Rightarrow> bool \<Rightarrow> turnElement" where
  "answerTurn t copy = \<lparr>innerText = t, strippedTextContent = t,
     markdownTextContent = Some t, hasCopyButton = copy, hasThinkingUI = False\<rparr>"

definition thinkingTurn :: turnElement where
  "thinkingTurn = \<lparr>innerText = ascii ''Reasoning'', strippedTextContent = [],
     markdownTextContent = Some (ascii ''Reasoning''), hasCopyButton = False, hasThinkingUI = True\<rparr>"

definition chat :: "turnElement list \<Rightarrow> page" where
  "chat ts = \<lparr>turns = ts, assistantMsgs = []\<rparr>"

text \<open>A menu, a browser in which every step succeeds, a session that is already running,
  and a run of the poll loop in which the last turn never shows more than a reasoning label.\<close>

definition modelMenu :: "menuOption list" where
  "modelMenu =
     [\<lparr>optText = ascii ''GPT-5 Instant'', optElement = 0\<rparr>,
      \<lparr>optText = ascii ''GPT-5 Thinking'', optElement = 1\<rparr>,
      \<lparr>optText = ascii ''GPT-5 Pro'', optElement = 2\<rparr>]"

definition readyDriver :: driver where
  "readyDriver =
     \<lparr>launchFailure = None,
      navigateOk = True,
      loginView = (\<lambda>n. \<lparr>hasLoggedInIndicator = True, hasLoginPrompt = False, hasPromptArea = True\<rparr>),
      projectLinks = [(ascii ''/g/g-p-0a1b-claude/project'', ascii ''claude'')],
      gotoFailure = (\<lambda>url. None),
      currentUrl = ascii ''https://chatgpt.com/'',
      urlAfterSend = ascii ''https://chatgpt.com/c/0a1b-2c3d'',
      modelButtonText = Some (ascii ''ChatGPT 5''),
      selectorClicked = True,
      dropdownOptions = Some modelMenu,
      typed = True,
      attachClicked = True,
      fileChooserFailure = None,
      defaultProject = []\<rparr>"

definition runningGlobals :: globals where
  "runningGlobals =
     \<lparr>sessionState =
        \<lparr>isLoggedIn = True, currentModel = Some (ascii ''GPT-5 Pro''),
         conversationId = Some (ascii ''0a1b-2c3d''),
         currentProjectUrl = Some (ascii ''https://chatgpt.com/g/g-p-0a1b-claude/project'')\<rparr>,
      sessionInitialized = True, browserRunning = True\<rparr>"


section \<open>Auxiliary facts\<close>

lemma removePhrase_absent: "\<not> str_includes s p \<Longrightarrow> removePhrase p s = s"
  by (simp add: removePhrase.simps)

lemma fold_removePhrase_absent:
  "list_all (\<lambda>p. \<not> str_includes s p) ps \<Longrightarrow> fold removePhrase ps s = s"
  by (induction ps) (simp_all add: removePhrase_absent)

lemma removeProThinking_absent: "\<not> hasProThinking s \<Longrightarrow> removeProThinking s = s"
  by (induction s) auto

lemma collapse_not_space_head:
  "s = [] \<or> \<not> is_space (hd s) \<Longrightarrow> collapseWhitespace s = [] \<or> \<not> is_space (hd (collapseWhitespace s))"
  by (cases s) auto

lemma dropWhile_head: "dropWhile P s = [] \<or> \<not> P (hd (dropWhile P s))"
  by (metis hd_dropWhile)

lemma singleSpaced_Cons:
  "singleSpaced (c # s) = ((is_space c \<longrightarrow> c = 32 \<and> (s = [] \<or> \<not> is_space (hd s))) \<and> singleSpaced s)"
  by (cases s) auto

lemma singleSpaced_collapse: "singleSpaced (collapseWhitespace s)"
proof (induction s rule: collapseWhitespace.induct)
  case 1
  show ?case by simp
next
  case (2 c cs)
  show ?case
  proof (cases "is_space c")
    case True
    have "collapseWhitespace (dropWhile is_space cs) = []
          \<or> \<not> is_space (hd (collapseWhitespace (dropWhile is_space cs)))"
      by (rule collapse_not_space_head) (rule dropWhile_head)
    with True 2 show ?thesis by (simp add: singleSpaced_Cons)
  next
    case False
    with 2 show ?thesis by (simp add: singleSpaced_Cons)
  qed
qed

lemma collapse_singleSpaced: "singleSpaced s \<Longrightarrow> collapseWhitespace s = s"
proof (induction s rule: collapseWhitespace.induct)
  case 1
  show ?case by simp
next
  case (2 c cs)
  from "2.prems" have tl: "singleSpaced cs" by (simp add: singleSpaced_Cons)
  show ?case
  proof (cases "is_space c")
    case True
    with "2.prems" have c: "c = 32" and h: "cs = [] \<or> \<not> is_space (hd cs)"
      by (simp_all add: singleSpaced_Cons)
    from h have d: "dropWhile is_space cs = cs" by (cases cs) auto
    from True c d tl "2.IH"(1) show ?thesis by simp
  next
    case False
    with tl "2.IH"(2) show ?thesis by simp
  qed
qed

lemma singleSpaced_append_left: "singleSpaced (xs @ ys) \<Longrightarrow> singleSpaced xs"
proof (induction xs rule: singleSpaced.induct)
  case 1
  show ?case by simp
next
  case (2 c)
  then show ?case by (simp add: singleSpaced_Cons)
next
  case (3 c d r)
  then show ?case by simp
qed

lemma singleSpaced_append_right: "singleSpaced (xs @ ys) \<Longrightarrow> singleSpaced ys"
  by (induction xs) (simp_all add: singleSpaced_Cons)

lemma trim_decompose: "\<exists>a b. s = a @ trim s @ b"
proof -
  let ?d = "dropWhile is_space s"
  have 1: "s = takeWhile is_space s @ ?d" by simp
  have "rev (takeWhile is_space (rev ?d) @ dropWhile is_space (rev ?d)) = ?d"
    by (simp only: takeWhile_dropWhile_id rev_rev_ident)
  then have "rev (dropWhile is_space (rev ?d)) @ rev (takeWhile is_space (rev ?d)) = ?d"
    by (simp only: rev_append)
  then have 2: "?d = trim s @ rev (takeWhile is_space (rev ?d))"
    by (simp only: trim_def)
  from 1 2 have "s = takeWhile is_space s @ trim s @ rev (takeWhile is_space (rev ?d))"
    by simp
  then show ?thesis by blast
qed

lemma singleSpaced_trim: "singleSpaced s \<Longrightarrow> singleSpaced (trim s)"
proof -
  assume s: "singleSpaced s"
  obtain a b where "s = a @ trim s @ b" using trim_decompose by blast
  with s have "singleSpaced (a @ trim s @ b)" by simp
  then have "singleSpaced (trim s @ b)" by (rule singleSpaced_append_right)
  then show ?thesis by (rule singleSpaced_append_left)
qed

lemma dropWhile_self: "s = [] \<or> \<not> P (hd s) \<Longrightarrow> dropWhile P s = s"
  by (cases s) auto

lemma trim_idem: "trim (trim s) = trim s"
proof -
  let ?e = "dropWhile is_space (rev (dropWhile is_space s))"
  have e: "?e = [] \<or> \<not> is_space (hd ?e)" by (rule dropWhile_head)
  have l: "?e = [] \<or> \<not> is_space (last ?e)"
  proof (cases "dropWhile is_space s = []")
    case True
    then have "?e = []" by (simp only: rev.simps dropWhile.simps)
    then show ?thesis by (rule disjI1)
  next
    case False
    then have "\<not> is_space (hd (dropWhile is_space s))" by (metis hd_dropWhile)
    then have nl: "\<not> is_space (last (rev (dropWhile is_space s)))"
      using False by (simp add: last_rev)
    show ?thesis
    proof (cases "?e = []")
      case True
      then show ?thesis by simp
    next
      case False
      then have "last ?e = last (rev (dropWhile is_space s))"
        by (metis last_appendR takeWhile_dropWhile_id)
      with nl show ?thesis by simp
    qed
  qed
  have t: "trim s = rev ?e" by (simp add: trim_def)
  from l have h: "rev ?e = [] \<or> \<not> is_space (hd (rev ?e))"
    by (cases "?e = []") (simp_all add: hd_rev)
  then have d1: "dropWhile is_space (rev ?e) = rev ?e" by (rule dropWhile_self)
  from e have d2: "dropWhile is_space ?e = ?e" by (rule dropWhile_self)
  show ?thesis
    unfolding t unfolding trim_def[of "rev ?e"] using d1 d2 by simp
qed

lemma normalize_idem:
  "trim (collapseWhitespace (trim (collapseWhitespace s))) = trim (collapseWhitespace s)"
proof -
  have "singleSpaced (trim (collapseWhitespace s))"
    by (rule singleSpaced_trim) (rule singleSpaced_collapse)
  then have "collapseWhitespace (trim (collapseWhitespace s)) = trim (collapseWhitespace s)"
    by (rule collapse_singleSpaced)
  then show ?thesis by (simp add: trim_idem)
qed

lemma cleanText_normalized: "trim (collapseWhitespace (cleanText x)) = cleanText x"
  by (simp add: cleanText_def Let_def normalize_idem)

lemma isGenerationComplete_Inr:
  "isGenerationComplete (Inr p) v L S =
     Inr \<lparr>complete =
            ((lastTurnHasCopy (evaluateIndicators p)
              \<and> 0 < (case getLatestResponseText v of None \<Rightarrow> 0 | Some t \<Rightarrow> length t)
              \<and> 1 \<le> stabilityUpdate L S (case getLatestResponseText v of None \<Rightarrow> 0 | Some t \<Rightarrow> length t))
             \<or> (\<not> isThinking (evaluateIndicators p)
              \<and> 0 < (case getLatestResponseText v of None \<Rightarrow> 0 | Some t \<Rightarrow> length t)
              \<and> FALLBACK_STABLE_THRESHOLD \<le> stabilityUpdate L S (case getLatestResponseText v of None \<Rightarrow> 0 | Some t \<Rightarrow> length t))),
          contentLength = (case getLatestResponseText v of None \<Rightarrow> 0 | Some t \<Rightarrow> length t),
          newStableCount = stabilityUpdate L S (case getLatestResponseText v of None \<Rightarrow> 0 | Some t \<Rightarrow> length t)\<rparr>"
  by (simp add: isGenerationComplete_def Let_def)

lemma find_first:
  "find P xs = Some x \<Longrightarrow> \<exists>i<length xs. xs ! i = x \<and> P x \<and> (\<forall>j<i. \<not> P (xs ! j))"
  by (auto simp: find_Some_iff)

lemma find_exists: "\<exists>x\<in>set xs. P x \<Longrightarrow> \<exists>x. find P xs = Some x"
  by (cases "find P xs") (auto simp: find_None_iff)

lemma find_none: "\<not> (\<exists>x\<in>set xs. P x) \<Longrightarrow> find P xs = None"
  by (simp add: find_None_iff)

lemma ensureSession_initialised:
  "sessionInitialized g \<Longrightarrow> browserRunning g \<Longrightarrow> ensureSession d g = (g, Inr ())"
  by (simp add: ensureSession_def)

lemma selectProjectInSession_model:
  "currentModel (sessionState (fst (selectProjectInSession d g name))) = currentModel (sessionState g)"
  by (simp add: selectProjectInSession_def Let_def split: option.splits)

lemma selectProjectInSession_login:
  "isLoggedIn (sessionState (fst (selectProjectInSession d g name))) = isLoggedIn (sessionState g)"
  by (simp add: selectProjectInSession_def Let_def split: option.splits)

lemma selectProjectInSession_success:
  "selectProjectInSession d g name = (g1, r) \<Longrightarrow> success r \<Longrightarrow>
     conversationId (sessionState g1) = None \<and> (\<exists>url. currentProjectUrl (sessionState g1) = Some url)"
  by (auto simp: selectProjectInSession_def Let_def split: option.splits)

lemma ensureSession_model:
  "currentModel (sessionState (fst (ensureSession d g))) = currentModel (sessionState g)"
  by (simp add: ensureSession_def Let_def selectProjectInSession_model split: option.splits)

lemma selectProjectInSession_flags:
  "sessionInitialized (fst (selectProjectInSession d g name)) = sessionInitialized g
   \<and> browserRunning (fst (selectProjectInSession d g name)) = browserRunning g"
  by (simp add: selectProjectInSession_def Let_def split: option.splits)

lemma ensureSession_destination:
  assumes "(sessionInitialized g \<and> browserRunning g) \<or> defaultProject d = []
           \<or> truthy (currentProjectUrl (sessionState g))"
  shows "currentProjectUrl (sessionState (fst (ensureSession d g)))
           = currentProjectUrl (sessionState g)"
  using assms by (auto simp: ensureSession_def Let_def split: option.splits)

lemma ensureSession_conversation:
  assumes "(sessionInitialized g \<and> browserRunning g) \<or> defaultProject d = []
           \<or> truthy (currentProjectUrl (sessionState g))"
  shows "conversationId (sessionState (fst (ensureSession d g)))
           = conversationId (sessionState g)"
  using assms by (auto simp: ensureSession_def Let_def split: option.splits)

lemma ensureSession_login:
  assumes "ensureSession d g = (g1, Inr u)"
  shows "isLoggedIn (sessionState g1)
           = (if sessionInitialized g \<and> browserRunning g then isLoggedIn (sessionState g) else True)"
  using assms
  by (auto simp: ensureSession_def Let_def selectProjectInSession_login
           split: option.splits if_splits)

lemma ensureSession_started:
  assumes "ensureSession d g = (g1, Inr u)"
  shows "sessionInitialized g1 \<and> browserRunning g1"
  using assms
  by (auto simp: ensureSession_def Let_def selectProjectInSession_flags
           split: option.splits if_splits)

lemma isGenerationComplete_Inl:
  "isGenerationComplete v1 v2 L S = Inl e \<Longrightarrow> \<exists>msg. e = DriverFailure msg"
  by (cases v1) (auto simp: isGenerationComplete_def Let_def)



lemma few_turns_no_text: "length (turns p) < 2 \<Longrightarrow> getLatestResponseText (Inr p) = None"
  by (simp add: getLatestResponseText_def evaluateLatestResponse_def)

lemma lastTurnHasCopy_page:
  "lastTurnHasCopy (evaluateIndicators p) = (2 \<le> length (turns p) \<and> hasCopyButton (last (turns p)))"
  by (simp add: evaluateIndicators_def Let_def)

lemma pollLoop_failure:
  assumes "pollLoop w tm deadline now polls L S = Inl e"
  shows "(\<exists>msg. e = DriverFailure msg) \<or> (\<exists>el. e = Timeout tm el)"
  using assms
proof (induction w tm deadline now polls L S rule: pollLoop.induct)
  case (1 w tm deadline now polls L S)
  show ?case
  proof (cases "now < deadline")
    case False
    with "1.prems" show ?thesis
      by (auto simp: pollLoop.simps[of w tm deadline now])
  next
    case True
    let ?polls1 = "polls + 1"
    let ?now1 = "now + fibonacciBackoff polls 30 + overhead w ?polls1"
    show ?thesis
    proof (cases "isGenerationComplete (viewAt w ?polls1 0) (viewAt w ?polls1 1) L S")
      case (Inl e')
      with True "1.prems" have "e = e'"
        by (simp add: pollLoop.simps[of w tm deadline now] Let_def)
      with isGenerationComplete_Inl[OF Inl] show ?thesis by simp
    next
      case (Inr result)
      show ?thesis
      proof (cases "complete result")
        case True
        with \<open>now < deadline\<close> Inr "1.prems" show ?thesis
          by (simp add: pollLoop.simps[of w tm deadline now] Let_def)
      next
        case False
        with \<open>now < deadline\<close> Inr "1.prems"
        have rec: "pollLoop w tm deadline ?now1 ?polls1 (contentLength result) (newStableCount result)
                = Inl e"
          by (simp add: pollLoop.simps[of w tm deadline now] Let_def)
        from "1.IH"[OF \<open>now < deadline\<close> refl refl refl Inr False rec] show ?thesis .
      qed
    qed
  qed
qed

section \<open>The properties stated by the specification\<close>

text \<open>
  \<^bold>\<open>C1.\<close> Whenever the indicators can be read, \<^verbatim>\<open>isGenerationComplete\<close> returns, and its
  \<open>complete\<close> is true exactly when (a) the copy button is inside the last turn, the
  extracted length is positive and the updated stable count is at least 1, or (b) the turn
  is not thinking, the length is positive and the updated stable count is at least 10.
  This holds for every page, every second view, every previous length and stable count.
  The fallback threshold is 10, and while the turn is thinking only the copy button can
  complete. When both evaluations see the same page, \<open>lastTurnHasCopy\<close> in (a) is the same
  as the copy button being inside the last turn element of the page.
\<close>

theorem isGenerationComplete_decision:
  "\<exists>r. isGenerationComplete (Inr p) v lastContentLength stableCount = Inr r
     \<and> (complete r \<longleftrightarrow>
          (lastTurnHasCopy (evaluateIndicators p) \<and> 0 < contentLength r \<and> 1 \<le> newStableCount r)
          \<or> (\<not> isThinking (evaluateIndicators p) \<and> 0 < contentLength r
              \<and> 10 \<le> newStableCount r))
     \<and> contentLength r = (case getLatestResponseText v of None \<Rightarrow> 0 | Some t \<Rightarrow> length t)
     \<and> newStableCount r = stabilityUpdate lastContentLength stableCount (contentLength r)
     \<and> (isThinking (evaluateIndicators p) \<and> \<not> lastTurnHasCopy (evaluateIndicators p)
          \<longrightarrow> \<not> complete r)
     \<and> FALLBACK_STABLE_THRESHOLD = 10
     \<and> (v = Inr p \<longrightarrow>
          (complete r \<longleftrightarrow>
             (turns p \<noteq> [] \<and> hasCopyButton (last (turns p)) \<and> 0 < contentLength r
               \<and> 1 \<le> newStableCount r)
             \<or> (\<not> isThinking (evaluateIndicators p) \<and> 0 < contentLength r
                 \<and> 10 \<le> newStableCount r)))"
proof -
  let ?len = "case getLatestResponseText v of None \<Rightarrow> 0 | Some t \<Rightarrow> length t"
  have q: "(lastTurnHasCopy (evaluateIndicators p) \<and> 0 < ?len)
           = (turns p \<noteq> [] \<and> hasCopyButton (last (turns p)) \<and> 0 < ?len)" if "v = Inr p"
  proof (cases "length (turns p) < 2")
    case True
    with that have "?len = 0" by (simp add: few_turns_no_text)
    then show ?thesis by simp
  next
    case False
    then have "turns p \<noteq> []" by auto
    with False show ?thesis by (simp add: lastTurnHasCopy_page)
  qed
  show ?thesis
    using q by (auto simp: isGenerationComplete_Inr FALLBACK_STABLE_THRESHOLD_def)
qed

theorem isGenerationComplete_decision_witness:
  "\<exists>r. isGenerationComplete (Inr (chat [userTurn, answerTurn (ascii ''Hello'') True]))
         (Inr (chat [userTurn, answerTurn (ascii ''Hello'') True])) 5 0 = Inr r
       \<and> complete r \<and> contentLength r = 5 \<and> newStableCount r = 1"
proof -
  let ?p = "chat [userTurn, answerTurn (ascii ''Hello'') True]"
  have i: "evaluateIndicators ?p = \<lparr>turnCount = 2, lastTurnHasCopy = True, isThinking = False\<rparr>"
    by code_simp
  have t: "getLatestResponseText (Inr ?p) = Some (ascii ''Hello'')"
    by code_simp
  from isGenerationComplete_decision[of ?p "Inr ?p" 5 0] obtain r where
    r: "isGenerationComplete (Inr ?p) (Inr ?p) 5 0 = Inr r"
    and c: "complete r \<longleftrightarrow>
          (lastTurnHasCopy (evaluateIndicators ?p) \<and> 0 < contentLength r \<and> 1 \<le> newStableCount r)
          \<or> (\<not> isThinking (evaluateIndicators ?p) \<and> 0 < contentLength r
              \<and> 10 \<le> newStableCount r)"
    and l: "contentLength r = (case getLatestResponseText (Inr ?p) of None \<Rightarrow> 0 | Some t \<Rightarrow> length t)"
    and n: "newStableCount r = stabilityUpdate 5 0 (contentLength r)"
    by blast
  from l have l5: "contentLength r = 5" unfolding t by (simp add: ascii_def)
  from n l5 have n1: "newStableCount r = 1" by (simp add: stabilityUpdate_def)
  from c l5 n1 have "complete r" by (simp add: i)
  with r l5 n1 show ?thesis by blast
qed

text \<open>
  \<^bold>\<open>C2.\<close> If the last turn of the page holds no copy button, then \<open>lastTurnHasCopy\<close> is
  false, whatever the earlier turns hold, and the check can only report completion through
  the fallback (not thinking, positive length, stable count at least the fallback
  threshold): the copy button is looked for inside the last turn only.
\<close>

theorem marker_scoped_to_last_turn:
  assumes "turns p = earlier @ [lastTurn]" and "\<not> hasCopyButton lastTurn"
  shows "\<not> lastTurnHasCopy (evaluateIndicators p)
         \<and> (\<forall>v L S r. isGenerationComplete (Inr p) v L S = Inr r \<longrightarrow> complete r
              \<longrightarrow> \<not> isThinking (evaluateIndicators p) \<and> 0 < contentLength r
                  \<and> FALLBACK_STABLE_THRESHOLD \<le> newStableCount r)"
proof -
  from assms have n: "\<not> lastTurnHasCopy (evaluateIndicators p)"
    by (simp add: evaluateIndicators_def Let_def)
  then show ?thesis
    by (auto simp: isGenerationComplete_Inr)
qed

theorem marker_scoped_to_last_turn_witness:
  "hasCopyButton userTurn \<and> hasCopyButton (answerTurn (ascii ''Done'') True)
   \<and> \<not> hasCopyButton (answerTurn (ascii ''Hello'') False)
   \<and> \<not> lastTurnHasCopy (evaluateIndicators
         (chat [userTurn, answerTurn (ascii ''Done'') True, userTurn, answerTurn (ascii ''Hello'') False]))
   \<and> isGenerationComplete
         (Inr (chat [userTurn, answerTurn (ascii ''Done'') True, userTurn, answerTurn (ascii ''Hello'') False]))
         (Inr (chat [userTurn, answerTurn (ascii ''Done'') True, userTurn, answerTurn (ascii ''Hello'') False]))
         5 0
       = Inr \<lparr>complete = False, contentLength = 5, newStableCount = 1\<rparr>"
proof -
  let ?p = "chat [userTurn, answerTurn (ascii ''Done'') True, userTurn, answerTurn (ascii ''Hello'') False]"
  have t: "turns ?p = [userTurn, answerTurn (ascii ''Done'') True, userTurn] @ [answerTurn (ascii ''Hello'') False]"
    by (simp add: chat_def)
  have h: "\<not> hasCopyButton (answerTurn (ascii ''Hello'') False)"
    by (simp add: answerTurn_def)
  have e: "hasCopyButton userTurn \<and> hasCopyButton (answerTurn (ascii ''Done'') True)"
    by (simp add: answerTurn_def userTurn_def)
  have g: "isGenerationComplete (Inr ?p) (Inr ?p) 5 0
             = Inr \<lparr>complete = False, contentLength = 5, newStableCount = 1\<rparr>"
    by code_simp
  from marker_scoped_to_last_turn[OF t h] h e g show ?thesis by simp
qed

text \<open>
  \<^bold>\<open>C3.\<close> The new stable count is \<open>S + 1\<close> when the extracted length is positive and
  equal to the previous length \<open>L\<close>, and 0 otherwise. Successive checks, started from
  length 0 and stable count 0, on pages whose extracted lengths are 0, 5, 5, 5, 7, 7 give
  the stable counts 0, 0, 1, 2, 0, 1.
\<close>

theorem stable_count_update:
  "(\<exists>r. isGenerationComplete (Inr p) v L S = Inr r
        \<and> newStableCount r = (if 0 < contentLength r \<and> contentLength r = L then S + 1 else 0))
   \<and> (map (\<lambda>q. case getLatestResponseText (Inr q) of None \<Rightarrow> 0 | Some t \<Rightarrow> length t) ps
         = [0, 5, 5, 5, 7, 7]
       \<longrightarrow> map newStableCount (detectorRuns 0 0 ps) = [0, 0, 1, 2, 0, 1])"
proof
  show "\<exists>r. isGenerationComplete (Inr p) v L S = Inr r
        \<and> newStableCount r = (if 0 < contentLength r \<and> contentLength r = L then S + 1 else 0)"
    by (simp add: isGenerationComplete_Inr stabilityUpdate_def)
next
  show "map (\<lambda>q. case getLatestResponseText (Inr q) of None \<Rightarrow> 0 | Some t \<Rightarrow> length t) ps
         = [0, 5, 5, 5, 7, 7]
       \<longrightarrow> map newStableCount (detectorRuns 0 0 ps) = [0, 0, 1, 2, 0, 1]"
  proof
    assume a: "map (\<lambda>q. case getLatestResponseText (Inr q) of None \<Rightarrow> 0 | Some t \<Rightarrow> length t) ps
         = [0, 5, 5, 5, 7, 7]"
    then obtain p1 p2 p3 p4 p5 p6 where ps: "ps = [p1, p2, p3, p4, p5, p6]"
      by (auto simp: map_eq_Cons_conv)
    from a show "map newStableCount (detectorRuns 0 0 ps) = [0, 0, 1, 2, 0, 1]"
      unfolding ps by (simp add: isGenerationComplete_Inr stabilityUpdate_def)
  qed
qed

theorem stable_count_update_witness:
  "map (\<lambda>q. case getLatestResponseText (Inr q) of None \<Rightarrow> 0 | Some t \<Rightarrow> length t)
      [chat [userTurn],
       chat [userTurn, answerTurn (ascii ''Hello'') False],
       chat [userTurn, answerTurn (ascii ''Hello'') False],
       chat [userTurn, answerTurn (ascii ''Hello'') False],
       chat [userTurn, answerTurn (ascii ''Hello w'') False],
       chat [userTurn, answerTurn (ascii ''Hello w'') True]]
     = [0, 5, 5, 5, 7, 7]
   \<and> map newStableCount (detectorRuns 0 0
      [chat [userTurn],
       chat [userTurn, answerTurn (ascii ''Hello'') False],
       chat [userTurn, answerTurn (ascii ''Hello'') False],
       chat [userTurn, answerTurn (ascii ''Hello'') False],
       chat [userTurn, answerTurn (ascii ''Hello w'') False],
       chat [userTurn, answerTurn (ascii ''Hello w'') True]])
     = [0, 0, 1, 2, 0, 1]"
proof -
  let ?ps = "[chat [userTurn],
       chat [userTurn, answerTurn (ascii ''Hello'') False],
       chat [userTurn, answerTurn (ascii ''Hello'') False],
       chat [userTurn, answerTurn (ascii ''Hello'') False],
       chat [userTurn, answerTurn (ascii ''Hello w'') False],
       chat [userTurn, answerTurn (ascii ''Hello w'') True]]"
  have a: "map (\<lambda>q. case getLatestResponseText (Inr q) of None \<Rightarrow> 0 | Some t \<Rightarrow> length t) ?ps
     = [0, 5, 5, 5, 7, 7]"
    by code_simp
  from stable_count_update[of undefined undefined undefined undefined ?ps] a
  show ?thesis by blast
qed

text \<open>
  \<^bold>\<open>C4.\<close> \<^verbatim>\<open>cleanText\<close> is not idempotent: each removal step runs once, so the text
  \<^verbatim>\<open>Thinking Thinking aloud\<close> loses one leading \<^verbatim>\<open>Thinking\<close> in the first pass and the
  other in the second.
\<close>

theorem cleanText_not_idempotent:
  "cleanText (cleanText (ascii ''Thinking Thinking aloud''))
     \<noteq> cleanText (ascii ''Thinking Thinking aloud'')"
  by code_simp

text \<open>
  \<^bold>\<open>C4, as amended.\<close> When the cleaned text holds no chrome any more (none of the phrases,
  no leading \<^verbatim>\<open>Thinking\<close>, no \<^verbatim>\<open>Pro thinking\<close> and no leading timer), cleaning it
  again changes nothing: the white space of a cleaned text is already collapsed and trimmed.
\<close>

theorem cleanText_idempotent_when_chrome_free:
  assumes "chromeFree (cleanText x)"
  shows "cleanText (cleanText x) = cleanText x"
proof -
  let ?y = "cleanText x"
  from assms have 1: "fold removePhrase phrasesToRemove ?y = ?y"
    by (simp add: chromeFree_def fold_removePhrase_absent)
  from assms have 2: "stripLeadingThinking ?y = ?y"
    by (simp add: chromeFree_def stripLeadingThinking_def)
  from assms have 3: "removeProThinking ?y = ?y"
    by (simp add: chromeFree_def removeProThinking_absent)
  from assms have 4: "stripLeadingTimer ?y = ?y"
    by (simp add: chromeFree_def stripLeadingTimer_def)
  have "cleanText ?y = trim (collapseWhitespace ?y)"
    unfolding cleanText_def[of ?y] Let_def by (simp only: 1 2 3 4)
  then show ?thesis by (simp add: cleanText_normalized)
qed

theorem cleanText_idempotent_when_chrome_free_witness:
  "chromeFree (cleanText (ascii ''Thinking 15 seconds Hello   world''))
   \<and> cleanText (ascii ''Thinking 15 seconds Hello   world'') = ascii ''Hello world''
   \<and> cleanText (cleanText (ascii ''Thinking 15 seconds Hello   world'')) = ascii ''Hello world''"
proof -
  have c: "cleanText (ascii ''Thinking 15 seconds Hello   world'') = ascii ''Hello world''"
    by code_simp
  have f: "chromeFree (ascii ''Hello world'')"
    by code_simp
  from f have "chromeFree (cleanText (ascii ''Thinking 15 seconds Hello   world''))"
    by (simp only: c)
  from this cleanText_idempotent_when_chrome_free[OF this] c show ?thesis
    by simp
qed

text \<open>
  \<^bold>\<open>C5.\<close> The third strategy returns its cleaned text without checking that it is not
  empty, as the first two do. On a page whose last turn shows only the label
  \<^verbatim>\<open>Reasoning\<close>, inside an element that the chrome selectors strip and that the
  markdown selector matches, the extraction returns the empty string: the fourth strategy,
  whose cleaned text is \<^verbatim>\<open>Hello\<close>, is not reached, and without any assistant message the
  result is still the empty string and not \<^verbatim>\<open>null\<close>.
\<close>

theorem empty_cleaned_text_ends_cascade:
  "evaluateLatestResponse
      \<lparr>turns = [userTurn, answerTurn (ascii ''Hello'') True, userTurn, thinkingTurn],
       assistantMsgs = [ascii ''Hello'']\<rparr> = Some []
   \<and> assistantStrategy
      \<lparr>turns = [userTurn, answerTurn (ascii ''Hello'') True, userTurn, thinkingTurn],
       assistantMsgs = [ascii ''Hello'']\<rparr> = Some (ascii ''Hello'')
   \<and> evaluateLatestResponse (chat [userTurn, thinkingTurn]) = Some []
   \<and> assistantStrategy (chat [userTurn, thinkingTurn]) = None"
  by code_simp



text \<open>
  \<^bold>\<open>C7.\<close> The match against the discovered labels goes by tiers: if some label equals the
  target (case ignored), the first such option in the list is selected, whatever else would
  match earlier in the list; otherwise the first label that starts with the target;
  otherwise the first that contains it; otherwise the result reports failure with the list
  of labels. With the options \<^verbatim>\<open>GPT-5 Instant\<close>, \<^verbatim>\<open>GPT-5 Thinking\<close>, \<^verbatim>\<open>GPT-5 Pro\<close> and the
  target \<^verbatim>\<open>pro\<close> the selected label is \<^verbatim>\<open>GPT-5 Pro\<close>.
\<close>

theorem matchOption_precedence:
  "(let exact = (\<lambda>opt. toLowerCase (optText opt) = t);
        pre = (\<lambda>opt. str_startsWith (toLowerCase (optText opt)) t);
        sub = (\<lambda>opt. str_includes (toLowerCase (optText opt)) t);
        firstOf = (\<lambda>P opt. \<exists>i<length opts. opts ! i = opt \<and> P opt \<and> (\<forall>j<i. \<not> P (opts ! j)))
    in if \<exists>opt\<in>set opts. exact opt
       then \<exists>opt. firstOf exact opt \<and> matchOption opts t = chosen opts opt
       else if \<exists>opt\<in>set opts. pre opt
       then \<exists>opt. firstOf pre opt \<and> matchOption opts t = chosen opts opt
       else if \<exists>opt\<in>set opts. sub opt
       then \<exists>opt. firstOf sub opt \<and> matchOption opts t = chosen opts opt
       else matchOption opts t
              = \<lparr>sel_success = False, selected = None, clicked = None,
                 available = map optText opts\<rparr>)
   \<and> selected (matchOption
        [\<lparr>optText = ascii ''GPT-5 Instant'', optElement = e1\<rparr>,
         \<lparr>optText = ascii ''GPT-5 Thinking'', optElement = e2\<rparr>,
         \<lparr>optText = ascii ''GPT-5 Pro'', optElement = e3\<rparr>]
        (trim (toLowerCase (ascii ''pro'')))) = Some (ascii ''GPT-5 Pro'')"
proof
  let ?exact = "\<lambda>opt. toLowerCase (optText opt) = t"
  let ?pre = "\<lambda>opt. str_startsWith (toLowerCase (optText opt)) t"
  let ?sub = "\<lambda>opt. str_includes (toLowerCase (optText opt)) t"
  let ?firstOf = "\<lambda>P opt. \<exists>i<length opts. opts ! i = opt \<and> P opt \<and> (\<forall>j<i. \<not> P (opts ! j))"
  have tier1: "\<exists>opt. ?firstOf ?exact opt \<and> matchOption opts t = chosen opts opt"
    if "\<exists>opt\<in>set opts. ?exact opt"
  proof -
    from that obtain x where x: "find ?exact opts = Some x"
      using find_exists[of opts ?exact] by blast
    then have "matchOption opts t = chosen opts x" by (simp add: matchOption_def)
    with find_first[OF x] show ?thesis by blast
  qed
  have tier2: "\<exists>opt. ?firstOf ?pre opt \<and> matchOption opts t = chosen opts opt"
    if "\<not> (\<exists>opt\<in>set opts. ?exact opt)" and "\<exists>opt\<in>set opts. ?pre opt"
  proof -
    from that(1) have n: "find ?exact opts = None" by (rule find_none)
    from that(2) obtain x where x: "find ?pre opts = Some x"
      using find_exists[of opts ?pre] by blast
    with n have "matchOption opts t = chosen opts x" by (simp add: matchOption_def)
    with find_first[OF x] show ?thesis by blast
  qed
  have tier3: "\<exists>opt. ?firstOf ?sub opt \<and> matchOption opts t = chosen opts opt"
    if "\<not> (\<exists>opt\<in>set opts. ?exact opt)" and "\<not> (\<exists>opt\<in>set opts. ?pre opt)"
      and "\<exists>opt\<in>set opts. ?sub opt"
  proof -
    from that(1) have n1: "find ?exact opts = None" by (rule find_none)
    from that(2) have n2: "find ?pre opts = None" by (rule find_none)
    from that(3) obtain x where x: "find ?sub opts = Some x"
      using find_exists[of opts ?sub] by blast
    with n1 n2 have "matchOption opts t = chosen opts x" by (simp add: matchOption_def)
    with find_first[OF x] show ?thesis by blast
  qed
  have none: "matchOption opts t
      = \<lparr>sel_success = False, selected = None, clicked = None, available = map optText opts\<rparr>"
    if "\<not> (\<exists>opt\<in>set opts. ?exact opt)" and "\<not> (\<exists>opt\<in>set opts. ?pre opt)"
      and "\<not> (\<exists>opt\<in>set opts. ?sub opt)"
  proof -
    from that(1) have n1: "find ?exact opts = None" by (rule find_none)
    from that(2) have n2: "find ?pre opts = None" by (rule find_none)
    from that(3) have n3: "find ?sub opts = None" by (rule find_none)
    from n1 n2 n3 show ?thesis by (simp add: matchOption_def)
  qed
  show "(let exact = ?exact; pre = ?pre; sub = ?sub; firstOf = ?firstOf
    in if \<exists>opt\<in>set opts. exact opt
       then \<exists>opt. firstOf exact opt \<and> matchOption opts t = chosen opts opt
       else if \<exists>opt\<in>set opts. pre opt
       then \<exists>opt. firstOf pre opt \<and> matchOption opts t = chosen opts opt
       else if \<exists>opt\<in>set opts. sub opt
       then \<exists>opt. firstOf sub opt \<and> matchOption opts t = chosen opts opt
       else matchOption opts t
              = \<lparr>sel_success = False, selected = None, clicked = None,
                 available = map optText opts\<rparr>)"
    unfolding Let_def using tier1 tier2 tier3 none by presburger
next
  have t: "trim (toLowerCase (ascii ''pro'')) = ascii ''pro''" by code_simp
  have l1: "toLowerCase (ascii ''GPT-5 Instant'') = ascii ''gpt-5 instant''" by code_simp
  have l2: "toLowerCase (ascii ''GPT-5 Thinking'') = ascii ''gpt-5 thinking''" by code_simp
  have l3: "toLowerCase (ascii ''GPT-5 Pro'') = ascii ''gpt-5 pro''" by code_simp
  have e: "ascii ''gpt-5 instant'' \<noteq> ascii ''pro''" "ascii ''gpt-5 thinking'' \<noteq> ascii ''pro''"
    "ascii ''gpt-5 pro'' \<noteq> ascii ''pro''"
    by code_simp+
  have p: "\<not> str_startsWith (ascii ''gpt-5 instant'') (ascii ''pro'')"
    "\<not> str_startsWith (ascii ''gpt-5 thinking'') (ascii ''pro'')"
    "\<not> str_startsWith (ascii ''gpt-5 pro'') (ascii ''pro'')"
    by code_simp+
  have i: "\<not> str_includes (ascii ''gpt-5 instant'') (ascii ''pro'')"
    "\<not> str_includes (ascii ''gpt-5 thinking'') (ascii ''pro'')"
    "str_includes (ascii ''gpt-5 pro'') (ascii ''pro'')"
    by code_simp+
  show "selected (matchOption
        [\<lparr>optText = ascii ''GPT-5 Instant'', optElement = e1\<rparr>,
         \<lparr>optText = ascii ''GPT-5 Thinking'', optElement = e2\<rparr>,
         \<lparr>optText = ascii ''GPT-5 Pro'', optElement = e3\<rparr>]
        (trim (toLowerCase (ascii ''pro'')))) = Some (ascii ''GPT-5 Pro'')"
    unfolding t by (simp add: matchOption_def chosen_def l1 l2 l3 e p i)
qed

theorem matchOption_precedence_witness:
  "matchOption
      (\<lparr>optText = ascii ''Pro Research'', optElement = 7\<rparr> # modelMenu
         @ [\<lparr>optText = ascii ''Pro'', optElement = 9\<rparr>])
      (trim (toLowerCase (ascii '' PRO '')))
     = chosen (\<lparr>optText = ascii ''Pro Research'', optElement = 7\<rparr> # modelMenu
         @ [\<lparr>optText = ascii ''Pro'', optElement = 9\<rparr>]) \<lparr>optText = ascii ''Pro'', optElement = 9\<rparr>
   \<and> selected (matchOption modelMenu (trim (toLowerCase (ascii ''pro'')))) = Some (ascii ''GPT-5 Pro'')
   \<and> clicked (matchOption modelMenu (trim (toLowerCase (ascii ''pro'')))) = Some 2"
proof -
  let ?opts = "\<lparr>optText = ascii ''Pro Research'', optElement = 7\<rparr> # modelMenu
         @ [\<lparr>optText = ascii ''Pro'', optElement = 9\<rparr>]"
  let ?t = "trim (toLowerCase (ascii '' PRO ''))"
  have ex: "\<exists>opt\<in>set ?opts. toLowerCase (optText opt) = ?t"
    by code_simp
  have first: "\<forall>opt\<in>set ?opts. toLowerCase (optText opt) = ?t
                 \<longrightarrow> opt = \<lparr>optText = ascii ''Pro'', optElement = 9\<rparr>"
    by code_simp
  from matchOption_precedence[of ?t ?opts 0 1 2] ex obtain opt where
    o: "opt \<in> set ?opts" "toLowerCase (optText opt) = ?t" "matchOption ?opts ?t = chosen ?opts opt"
    unfolding Let_def by (metis (no_types, lifting) nth_mem)
  from o first have "opt = \<lparr>optText = ascii ''Pro'', optElement = 9\<rparr>" by blast
  with o(3) have a: "matchOption ?opts ?t = chosen ?opts \<lparr>optText = ascii ''Pro'', optElement = 9\<rparr>"
    by simp
  from matchOption_precedence[of ?t ?opts 0 1 2]
  have b: "selected (matchOption modelMenu (trim (toLowerCase (ascii ''pro'')))) = Some (ascii ''GPT-5 Pro'')"
    unfolding modelMenu_def by (rule conjunct2)
  have c: "clicked (matchOption modelMenu (trim (toLowerCase (ascii ''pro'')))) = Some 2"
    by code_simp
  from a b c show ?thesis by blast
qed

text \<open>
  \<^bold>\<open>C8.\<close> With the default cap of 30 seconds, the delay of poll \<open>n\<close> is, for \<open>n\<close> from 0 to
  7, the \<open>n\<close>-th of 2, 3, 5, 8, 13, 21, 30, 30 seconds (returned in milliseconds), and 30
  seconds for every \<open>n\<close> from 6 on. The function is total on the natural numbers.
\<close>

theorem fibonacciBackoff_schedule:
  "(n \<le> 7 \<longrightarrow> fibonacciBackoff n 30 = ([2, 3, 5, 8, 13, 21, 30, 30] ! n) * 1000)
   \<and> (6 \<le> n \<longrightarrow> fibonacciBackoff n 30 = 30 * 1000)"
proof
  show "n \<le> 7 \<longrightarrow> fibonacciBackoff n 30 = ([2, 3, 5, 8, 13, 21, 30, 30] ! n) * 1000"
  proof
    assume "n \<le> 7"
    then have "n \<in> set [0..<8]"
      by simp
    moreover have "\<forall>k\<in>set [0..<8].
        fibonacciBackoff k 30 = ([2, 3, 5, 8, 13, 21, 30, 30] ! k) * 1000"
      by code_simp
    ultimately show "fibonacciBackoff n 30 = ([2, 3, 5, 8, 13, 21, 30, 30] ! n) * 1000"
      by blast
  qed
next
  show "6 \<le> n \<longrightarrow> fibonacciBackoff n 30 = 30 * 1000"
    by (simp add: fibonacciBackoff_def FIB_DELAYS_def min_def)
qed

theorem fibonacciBackoff_schedule_witness:
  "map (\<lambda>n. fibonacciBackoff n 30) [0, 1, 2, 3, 4, 5, 6, 7]
     = [2000, 3000, 5000, 8000, 13000, 21000, 30000, 30000]
   \<and> fibonacciBackoff 1000 30 = 30000"
  using fibonacciBackoff_schedule[of 0] fibonacciBackoff_schedule[of 1]
    fibonacciBackoff_schedule[of 2] fibonacciBackoff_schedule[of 3]
    fibonacciBackoff_schedule[of 4] fibonacciBackoff_schedule[of 5]
    fibonacciBackoff_schedule[of 6] fibonacciBackoff_schedule[of 7]
    fibonacciBackoff_schedule[of 1000]
  by simp

text \<open>
  \<^bold>\<open>C9.\<close> \<^verbatim>\<open>newConversation\<close> begins with \<^verbatim>\<open>ensureSession\<close>. On the first call of a
  process this starts the session and writes the login flag, so a successful
  \<^verbatim>\<open>newConversation\<close> can change the login flag.
\<close>

theorem newConversation_first_call_changes_login_flag:
  "success (snd (newConversation readyDriver initialGlobals))
   \<and> isLoggedIn (sessionState (fst (newConversation readyDriver initialGlobals)))
        \<noteq> isLoggedIn (sessionState initialGlobals)"
  by code_simp

text \<open>
  \<^bold>\<open>C9, as amended.\<close> \<^verbatim>\<open>newConversation\<close> never changes the current model, and it leaves
  the destination as it was unless it has to start the session while a default project is
  configured and no destination is set (the one case in which \<^verbatim>\<open>ensureSession\<close> selects
  a project). When it succeeds, the conversation identifier is cleared and the login flag
  is as it was if the session was already initialised and the browser running, and true
  otherwise, the session having just been started. \<^verbatim>\<open>selectProject\<close> never changes the
  current model; when it succeeds, the conversation identifier is cleared, a destination
  is set, and the login flag is as for \<^verbatim>\<open>newConversation\<close>. On a session that is
  initialised with the browser running, \<^verbatim>\<open>newConversation\<close> always succeeds.
\<close>

theorem conversation_reset_frame:
  "(newConversation d g = (g1, r1) \<longrightarrow>
      currentModel (sessionState g1) = currentModel (sessionState g)
      \<and> ((sessionInitialized g \<and> browserRunning g) \<or> defaultProject d = []
            \<or> truthy (currentProjectUrl (sessionState g))
          \<longrightarrow> currentProjectUrl (sessionState g1) = currentProjectUrl (sessionState g))
      \<and> (success r1 \<longrightarrow>
            conversationId (sessionState g1) = None
            \<and> isLoggedIn (sessionState g1)
                = (if sessionInitialized g \<and> browserRunning g
                   then isLoggedIn (sessionState g) else True)))
   \<and> (selectProject d g projectName = (g2, r2) \<longrightarrow>
      currentModel (sessionState g2) = currentModel (sessionState g)
      \<and> (success r2 \<longrightarrow>
            conversationId (sessionState g2) = None
            \<and> (\<exists>url. currentProjectUrl (sessionState g2) = Some url)
            \<and> isLoggedIn (sessionState g2)
                = (if sessionInitialized g \<and> browserRunning g
                   then isLoggedIn (sessionState g) else True)))
   \<and> (sessionInitialized g \<and> browserRunning g \<longrightarrow> success (snd (newConversation d g)))"
proof (intro conjI impI)
  assume a: "newConversation d g = (g1, r1)"
  obtain ga out where e: "ensureSession d g = (ga, out)" by (cases "ensureSession d g")
  from a e have s: "sessionState g1 = sessionState ga
      \<or> sessionState g1 = (sessionState ga)\<lparr>conversationId := None\<rparr>"
    by (cases out) (auto simp: newConversation_def Let_def)
  from ensureSession_model[of d g] e
  have "currentModel (sessionState ga) = currentModel (sessionState g)" by simp
  with s show "currentModel (sessionState g1) = currentModel (sessionState g)" by auto
  {
    assume h: "(sessionInitialized g \<and> browserRunning g) \<or> defaultProject d = []
            \<or> truthy (currentProjectUrl (sessionState g))"
    from ensureSession_destination[OF h] e
    have "currentProjectUrl (sessionState ga) = currentProjectUrl (sessionState g)" by simp
    with s show "currentProjectUrl (sessionState g1) = currentProjectUrl (sessionState g)" by auto
  }
  {
    assume ok: "success r1"
    with a e obtain u where out: "out = Inr u"
      by (cases out) (auto simp: newConversation_def)
    from a e out have g1: "g1 = ga\<lparr>sessionState := (sessionState ga)\<lparr>conversationId := None\<rparr>\<rparr>"
      by (auto simp: newConversation_def Let_def)
    from g1 show "conversationId (sessionState g1) = None" by simp
    from e out have "ensureSession d g = (ga, Inr u)" by simp
    from ensureSession_login[OF this] g1
    show "isLoggedIn (sessionState g1)
            = (if sessionInitialized g \<and> browserRunning g
               then isLoggedIn (sessionState g) else True)"
      by simp
  }
next
  assume a: "selectProject d g projectName = (g2, r2)"
  obtain ga out where e: "ensureSession d g = (ga, out)" by (cases "ensureSession d g")
  from ensureSession_model[of d g] e
  have m: "currentModel (sessionState ga) = currentModel (sessionState g)" by simp
  show "currentModel (sessionState g2) = currentModel (sessionState g)"
  proof (cases out)
    case (Inl err)
    with a e have "g2 = ga" by (simp add: selectProject_def)
    with m show ?thesis by simp
  next
    case (Inr u)
    with a e have "selectProjectInSession d ga projectName = (g2, r2)"
      by (simp add: selectProject_def)
    with selectProjectInSession_model[of d ga projectName] m show ?thesis by simp
  qed
  {
    assume ok: "success r2"
    with a e obtain u where out: "out = Inr u"
      by (cases out) (auto simp: selectProject_def)
    from a e out have s: "selectProjectInSession d ga projectName = (g2, r2)"
      by (simp add: selectProject_def)
    from selectProjectInSession_success[OF s ok]
    show "conversationId (sessionState g2) = None" by blast
    from selectProjectInSession_success[OF s ok]
    show "\<exists>url. currentProjectUrl (sessionState g2) = Some url" by blast
    from e out have "ensureSession d g = (ga, Inr u)" by simp
    from ensureSession_login[OF this] selectProjectInSession_login[of d ga projectName] s
    show "isLoggedIn (sessionState g2)
            = (if sessionInitialized g \<and> browserRunning g
               then isLoggedIn (sessionState g) else True)"
      by simp
  }
next
  assume "sessionInitialized g \<and> browserRunning g"
  then show "success (snd (newConversation d g))"
    by (simp add: newConversation_def ensureSession_initialised Let_def)
qed

theorem conversation_reset_frame_witness:
  "sessionInitialized runningGlobals \<and> browserRunning runningGlobals
   \<and> conversationId (sessionState runningGlobals) = Some (ascii ''0a1b-2c3d'')
   \<and> success (snd (newConversation readyDriver runningGlobals))
   \<and> sessionState (fst (newConversation readyDriver runningGlobals))
        = (sessionState runningGlobals)\<lparr>conversationId := None\<rparr>
   \<and> success (snd (selectProject readyDriver runningGlobals (ascii ''Claude'')))
   \<and> sessionState (fst (selectProject readyDriver runningGlobals (ascii ''Claude'')))
        = (sessionState runningGlobals)\<lparr>conversationId := None\<rparr>
   \<and> \<not> sessionInitialized initialGlobals \<and> defaultProject readyDriver = []
   \<and> success (snd (newConversation readyDriver initialGlobals))
   \<and> sessionState (fst (newConversation readyDriver initialGlobals))
        = (sessionState initialGlobals)\<lparr>isLoggedIn := True\<rparr>"
proof -
  have i: "sessionInitialized runningGlobals \<and> browserRunning runningGlobals"
    by (simp add: runningGlobals_def)
  have c: "conversationId (sessionState runningGlobals) = Some (ascii ''0a1b-2c3d'')"
    by (simp add: runningGlobals_def)
  have n0: "\<not> sessionInitialized initialGlobals"
    by (simp add: initialGlobals_def)
  have dp: "defaultProject readyDriver = []"
    by (simp add: readyDriver_def)
  have c0: "conversationId (sessionState initialGlobals) = None"
    by (simp add: initialGlobals_def)
  obtain g1 r1 where n: "newConversation readyDriver runningGlobals = (g1, r1)"
    by (cases "newConversation readyDriver runningGlobals")
  obtain g2 r2 where s: "selectProject readyDriver runningGlobals (ascii ''Claude'') = (g2, r2)"
    by (cases "selectProject readyDriver runningGlobals (ascii ''Claude'')")
  obtain g3 r3 where f: "newConversation readyDriver initialGlobals = (g3, r3)"
    by (cases "newConversation readyDriver initialGlobals")
  have s2: "success (snd (selectProject readyDriver runningGlobals (ascii ''Claude'')))"
    by code_simp
  have u2: "currentProjectUrl (sessionState (fst (selectProject readyDriver runningGlobals (ascii ''Claude''))))
      = currentProjectUrl (sessionState runningGlobals)"
    by code_simp
  have s3: "success (snd (newConversation readyDriver initialGlobals))"
    by code_simp
  note t1 = conversation_reset_frame[of readyDriver runningGlobals g1 r1 "ascii ''Claude''" g2 r2]
  note t3 = conversation_reset_frame[of readyDriver initialGlobals g3 r3 "ascii ''Claude''" g2 r2]
  from t1 i n have s1: "success r1" by simp
  from t1 i n s1 have a: "sessionState g1 = (sessionState runningGlobals)\<lparr>conversationId := None\<rparr>"
    by (intro SessionState.equality) simp_all
  from s s2 have s2': "success r2" by simp
  from t1 i s s2' u2 have b: "sessionState g2 = (sessionState runningGlobals)\<lparr>conversationId := None\<rparr>"
    by (intro SessionState.equality) simp_all
  from f s3 have s3': "success r3" by simp
  from t3 f s3' n0 dp c0 have d: "sessionState g3 = (sessionState initialGlobals)\<lparr>isLoggedIn := True\<rparr>"
    by (intro SessionState.equality) simp_all
  from i c n s f s1 s2' s3' a b d n0 dp show ?thesis by simp
qed

text \<open>
  \<^bold>\<open>C10.\<close> On a page with fewer than two turn elements the extraction returns
  \<^verbatim>\<open>null\<close>, whatever the turn and the assistant messages hold: no strategy is tried, the
  page-wide one included.
\<close>

theorem fewer_than_two_turns_absent:
  "length (turns p) < 2 \<Longrightarrow> evaluateLatestResponse p = None \<and> getLatestResponseText (Inr p) = None"
  by (simp add: evaluateLatestResponse_def getLatestResponseText_def)

theorem fewer_than_two_turns_absent_witness:
  "length (turns \<lparr>turns = [answerTurn (ascii ''Hello'') True], assistantMsgs = [ascii ''Hello'']\<rparr>) < 2
   \<and> assistantStrategy \<lparr>turns = [answerTurn (ascii ''Hello'') True], assistantMsgs = [ascii ''Hello'']\<rparr>
        = Some (ascii ''Hello'')
   \<and> getLatestResponseText
        (Inr \<lparr>turns = [answerTurn (ascii ''Hello'') True], assistantMsgs = [ascii ''Hello'']\<rparr>) = None"
proof -
  let ?p = "\<lparr>turns = [answerTurn (ascii ''Hello'') True], assistantMsgs = [ascii ''Hello'']\<rparr>"
  have l: "length (turns ?p) < 2" by simp
  have a: "assistantStrategy ?p = Some (ascii ''Hello'')" by code_simp
  from fewer_than_two_turns_absent[OF l] l a show ?thesis by simp
qed

end
